theory Spec2Isabelle
  imports Main
begin

section \<open>Template strings: values, errors and promises\<close>

text \<open>
  The development follows \<^verbatim>\<open>src/template-string.ts\<close>. A template string such as
  \<^verbatim>\<open>prefix-${nested.key}-suffix\<close> is resolved against a context: a map whose values are
  primitives, resolver functions or nested contexts.
\<close>

text \<open>
  \<^verbatim>\<open>class TemplateStringError extends Error { }\<close> carries a message and nothing else.
  \<open>OtherError\<close> stands for whatever else a resolver function may throw or reject with.
\<close>

datatype error = TemplateStringError string | OtherError string

text \<open>
  The code is asynchronous. A value handed to \<^verbatim>\<open>Bluebird.all\<close>, or a promise, is described
  by how it settles: \<open>Fulfils v\<close> is a plain value \<open>v\<close> or a promise that resolves to
  \<open>v\<close>; \<open>Rejects E\<close> is a promise that is rejected with one of the errors in \<open>E\<close>.
  Which error of \<open>E\<close> it is depends on the order in which pending promises settle, which
  is not a function of the arguments; a promise with a single cause of failure has a
  singleton \<open>E\<close>. A synchronous \<^verbatim>\<open>throw\<close> is the \<open>Inl\<close> of a sum.
\<close>

datatype 'a fate = Fulfils 'a | Rejects "error set"

text \<open>
  \<^verbatim>\<open>Primitive\<close> is \<^verbatim>\<open>string | number | boolean\<close>. Numbers are modelled by the integers:
  the code only tests a number for truthiness and hands it on.
\<close>

datatype Primitive = PString string | PNumber int | PBoolean bool

text \<open>
  \<^verbatim>\<open>interface TemplateStringContext
  { [type: string]: Primitive | KeyResolver | TemplateStringContext | undefined }\<close>

  \<^verbatim>\<open>type KeyResolver = (keyParts: string[]) => Promise<string> | string\<close>: a call throws
  (\<open>Inl\<close>), or returns a value or a promise of one (\<open>Inr\<close>). The resolver calls
  whatever value has the type \<^verbatim>\<open>function\<close>, its own property or an inherited one, and
  returns the result as it is; so a function of the model may return any value, not only
  a string. Arrays are among the values because inherited functions return them.
\<close>

datatype cvalue =
    Prim Primitive
  | Resolver "string list \<Rightarrow> error + cvalue fate"
  | Nested "string \<Rightarrow> cvalue option"
  | Array "cvalue list"
  | Undefined

type_synonym KeyResolver = "string list \<Rightarrow> error + cvalue fate"

type_synonym TemplateStringContext = "string \<Rightarrow> cvalue option"

text \<open>
  What the JavaScript runtime contributes and the source file does not define:
  \<open>inherited v k\<close> is the value of \<^verbatim>\<open>v[k]\<close> when \<open>k\<close> is not an own property of \<open>v\<close>
  (a property of a primitive such as \<^verbatim>\<open>length\<close>, a member of \<^verbatim>\<open>Object.prototype\<close>), and
  \<open>toStringOf v\<close> is the string \<^verbatim>\<open>Array.prototype.join\<close> makes of an object, an array
  or a function. The properties below are proved for an arbitrary runtime; the examples
  are computed in \<open>plainRuntime\<close> and \<open>objectRuntime\<close>. The code never reads a property of
  \<^verbatim>\<open>undefined\<close>: it reads \<^verbatim>\<open>value[part]\<close> only when \<^verbatim>\<open>value\<close> is truthy.
\<close>

record runtime =
  inherited :: "cvalue \<Rightarrow> string \<Rightarrow> cvalue"
  toStringOf :: "cvalue \<Rightarrow> string"

text \<open>\<^verbatim>\<open>typeof value\<close>, which the resolver switches on.\<close>

fun typeof :: "cvalue \<Rightarrow> string" where
  "typeof (Prim (PString _)) = ''string''"
| "typeof (Prim (PNumber _)) = ''number''"
| "typeof (Prim (PBoolean _)) = ''boolean''"
| "typeof (Resolver _) = ''function''"
| "typeof (Nested _) = ''object''"
| "typeof (Array _) = ''object''"
| "typeof Undefined = ''undefined''"

text \<open>
  The condition of \<^verbatim>\<open>value ? ... : ...\<close>: \<^verbatim>\<open>undefined\<close>, the empty string, zero and
  \<^verbatim>\<open>false\<close> are falsy, everything else is truthy.
\<close>

fun truthy :: "cvalue \<Rightarrow> bool" where
  "truthy Undefined = False"
| "truthy (Prim (PString s)) = (s \<noteq> [])"
| "truthy (Prim (PNumber n)) = (n \<noteq> 0)"
| "truthy (Prim (PBoolean b)) = b"
| "truthy (Resolver _) = True"
| "truthy (Nested _) = True"
| "truthy (Array _) = True"

text \<open>
  Modelled from the spec: \<^verbatim>\<open>isPrimitive\<close> is imported from \<^verbatim>\<open>./types/common\<close>, which is
  not among the sources; a primitive is a string, a number or a boolean.
\<close>

fun isPrimitive :: "cvalue \<Rightarrow> bool" where
  "isPrimitive (Prim _) = True"
| "isPrimitive _ = False"

text \<open>
  \<^verbatim>\<open>value[part]\<close>: an own property of a context if there is one, else what the runtime
  supplies.
\<close>

fun getProperty :: "runtime \<Rightarrow> cvalue \<Rightarrow> string \<Rightarrow> cvalue" where
  "getProperty rt (Nested m) part =
     (case m part of Some v \<Rightarrow> v | None \<Rightarrow> inherited rt (Nested m) part)"
| "getProperty rt v part = inherited rt v part"

text \<open>\<^verbatim>\<open>parts.join(".")\<close>\<close>

fun joinWith :: "string \<Rightarrow> string list \<Rightarrow> string" where
  "joinWith sep [] = []"
| "joinWith sep [x] = x"
| "joinWith sep (x # y # ys) = x @ sep @ joinWith sep (y # ys)"

section \<open>The key-path resolver\<close>

text \<open>
  \<^verbatim>\<open>value = value ? value[part] : context[part]\<close>, the first statement of the loop body.
\<close>

definition lookupPart :: "runtime \<Rightarrow> TemplateStringContext \<Rightarrow> cvalue \<Rightarrow> string \<Rightarrow> cvalue" where
  "lookupPart rt context value part =
     (if truthy value then getProperty rt value part
      else getProperty rt (Nested context) part)"

definition keyNotFound :: "string \<Rightarrow> error" where
  "keyNotFound path = TemplateStringError (''Could not find key: '' @ path)"

definition notPrimitive :: "string \<Rightarrow> error" where
  "notPrimitive path = TemplateStringError
     (''Value at '' @ path @ '' exists but is not a primitive (string, number or boolean)'')"

text \<open>
  The \<^verbatim>\<open>for\<close> loop of \<^verbatim>\<open>genericResolver\<close> over the parts still to be visited, with the
  statements after it as the base case. \<open>rest\<close> is \<^verbatim>\<open>parts.slice(p + 1)\<close>.
\<close>

fun resolveLoop ::
  "runtime \<Rightarrow> TemplateStringContext \<Rightarrow> string \<Rightarrow> cvalue \<Rightarrow> string list \<Rightarrow> error + cvalue fate"
where
  "resolveLoop rt context path value [] =
     (if \<not> isPrimitive value then Inl (notPrimitive path) else Inr (Fulfils value))"
| "resolveLoop rt context path value (part # rest) =
     (case lookupPart rt context value part of
        Resolver f \<Rightarrow> f rest
      | Undefined \<Rightarrow> Inl (keyNotFound path)
      | value' \<Rightarrow> resolveLoop rt context path value' rest)"

definition genericResolver ::
  "runtime \<Rightarrow> TemplateStringContext \<Rightarrow> string list \<Rightarrow> error + cvalue fate"
where
  "genericResolver rt context parts =
     resolveLoop rt context (joinWith ''.'' parts) Undefined parts"

text \<open>
  The value of the accumulator \<^verbatim>\<open>value\<close> once the loop has run through the given
  parts, and \<open>None\<close> when it has left the loop on the way (a resolver function was
  called, or a key was not found).
\<close>

fun accumulatorAfter ::
  "runtime \<Rightarrow> TemplateStringContext \<Rightarrow> cvalue \<Rightarrow> string list \<Rightarrow> cvalue option"
where
  "accumulatorAfter rt context value [] = Some value"
| "accumulatorAfter rt context value (part # rest) =
     (case lookupPart rt context value part of
        Resolver f \<Rightarrow> None
      | Undefined \<Rightarrow> None
      | value' \<Rightarrow> accumulatorAfter rt context value' rest)"

section \<open>The string interpolator\<close>

text \<open>
  The options object \<^verbatim>\<open>{ getKey: genericResolver(context), TemplateStringError }\<close> handed
  to the parser, and the parser itself: \<^verbatim>\<open>parser.parse(string, options)\<close> throws or returns
  an array whose items are strings, primitives or promises.
\<close>

record parseOptions =
  getKey :: "string list \<Rightarrow> error + cvalue fate"
  errorClass :: "string \<Rightarrow> error"

type_synonym parser = "string \<Rightarrow> parseOptions \<Rightarrow> error + cvalue fate list"

text \<open>
  \<^verbatim>\<open>Bluebird.all\<close> (a library, not part of the repository): the promise of all the values
  when every item is fulfilled; rejected as soon as one item is, so with the error of
  whichever rejected item settles first.
\<close>

fun Bluebird_all :: "'a fate list \<Rightarrow> 'a list fate" where
  "Bluebird_all [] = Fulfils []"
| "Bluebird_all (p # ps) =
     (case (p, Bluebird_all ps) of
        (Fulfils v, Fulfils vs) \<Rightarrow> Fulfils (v # vs)
      | (Fulfils v, Rejects E) \<Rightarrow> Rejects E
      | (Rejects E, Fulfils vs) \<Rightarrow> Rejects E
      | (Rejects E, Rejects E') \<Rightarrow> Rejects (E \<union> E'))"

text \<open>
  The string of a number. Numbers are integers here, and JavaScript prints an integer of
  magnitude below \<open>10\<^sup>2\<^sup>1\<close> in decimal, with a minus sign when it is negative.
\<close>

function decimal :: "nat \<Rightarrow> string" where
  "decimal n =
     (if n < 10 then [''0123456789'' ! n]
      else decimal (n div 10) @ [''0123456789'' ! (n mod 10)])"
  by pat_completeness auto

termination decimal
  by (relation "measure id") auto

declare decimal.simps [simp del]

definition numberToString :: "int \<Rightarrow> string" where
  "numberToString n = (if n < 0 then CHR ''-'' # decimal (nat (- n)) else decimal (nat n))"

text \<open>
  The string \<^verbatim>\<open>Array.prototype.join\<close> makes of an element: \<^verbatim>\<open>undefined\<close> gives the
  empty string, a string itself, a number its numeral, a boolean its name; what an
  object, an array or a function gives is the runtime's.
\<close>

fun toStr :: "runtime \<Rightarrow> cvalue \<Rightarrow> string" where
  "toStr rt (Prim (PString s)) = s"
| "toStr rt (Prim (PNumber n)) = numberToString n"
| "toStr rt (Prim (PBoolean b)) = (if b then ''true'' else ''false'')"
| "toStr rt Undefined = []"
| "toStr rt v = toStringOf rt v"

text \<open>
  \<^verbatim>\<open>parseTemplateString\<close> is an \<^verbatim>\<open>async\<close> function: what the parser throws rejects the
  promise it returns. \<open>parser\<close> is the instance \<^verbatim>\<open>getParser()\<close> returns.
\<close>

definition parseTemplateString ::
  "parser \<Rightarrow> runtime \<Rightarrow> string \<Rightarrow> TemplateStringContext \<Rightarrow> string fate"
where
  "parseTemplateString parser rt string context =
     (case parser string \<lparr> getKey = genericResolver rt context,
                             errorClass = TemplateStringError \<rparr> of
        Inl e \<Rightarrow> Rejects {e}
      | Inr parsed \<Rightarrow>
          map_fate (\<lambda>resolved. joinWith [] (map (toStr rt) resolved)) (Bluebird_all parsed))"

section \<open>The deep resolver\<close>

text \<open>
  The objects \<^verbatim>\<open>resolveTemplateStrings\<close> is given: arrays and objects over leaves that
  are \<^verbatim>\<open>null\<close>, booleans, numbers or strings. The type of the leaves is a parameter,
  since \<^verbatim>\<open>deepMap\<close> replaces some of them by promises.
\<close>

datatype leaf = LNull | LBoolean bool | LNumber int | LString string

datatype 'a vtree =
    Leaf 'a
  | Sequence "'a vtree list"
  | Mapping "(string \<times> 'a vtree) list"

type_synonym Value = "leaf vtree"

text \<open>
  Modelled from the spec: \<^verbatim>\<open>deepMap\<close> is the package \<^verbatim>\<open>deep-map\<close>, which is not among
  the sources. It applies the function to every leaf, and keeps the order and length of
  every sequence and the keys of every mapping.
\<close>

fun deepMap :: "'a vtree \<Rightarrow> ('a \<Rightarrow> 'b) \<Rightarrow> 'b vtree" where
  "deepMap (Leaf v) f = Leaf (f v)"
| "deepMap (Sequence ts) f = Sequence (map (\<lambda>t. deepMap t f) ts)"
| "deepMap (Mapping kvs) f = Mapping (map (\<lambda>(k, t). (k, deepMap t f)) kvs)"

text \<open>
  Modelled from the spec: \<^verbatim>\<open>deepResolve\<close> is imported from \<^verbatim>\<open>./util\<close>, which is not
  among the sources. By section 4.3 of the spec it resolves all pending leaves and
  rebuilds a tree of the same shape; by section 5 it fails when a leaf does, and the
  error is the one of the first failing leaf in structural order.
\<close>

fun allInOrder :: "'a fate list \<Rightarrow> 'a list fate" where
  "allInOrder [] = Fulfils []"
| "allInOrder (Fulfils v # ps) = map_fate (Cons v) (allInOrder ps)"
| "allInOrder (Rejects E # ps) = Rejects E"

fun deepResolve :: "'a fate vtree \<Rightarrow> 'a vtree fate" where
  "deepResolve (Leaf p) = map_fate Leaf p"
| "deepResolve (Sequence ts) = map_fate Sequence (allInOrder (map deepResolve ts))"
| "deepResolve (Mapping kvs) =
     map_fate (\<lambda>vs. Mapping (zip (map fst kvs) vs))
       (allInOrder (map (\<lambda>(k, t). deepResolve t) kvs))"

text \<open>
  \<^verbatim>\<open>deepMap(o, (v) => typeof v === "string" ? parseTemplateString(v, context) : v)\<close>
  and then \<^verbatim>\<open>deepResolve(mapped)\<close>.
\<close>

definition resolveLeaf ::
  "parser \<Rightarrow> runtime \<Rightarrow> TemplateStringContext \<Rightarrow> leaf \<Rightarrow> leaf fate"
where
  "resolveLeaf parser rt context v =
     (case v of
        LString s \<Rightarrow> map_fate LString (parseTemplateString parser rt s context)
      | _ \<Rightarrow> Fulfils v)"

definition resolveTemplateStrings ::
  "parser \<Rightarrow> runtime \<Rightarrow> Value \<Rightarrow> TemplateStringContext \<Rightarrow> Value fate"
where
  "resolveTemplateStrings parser rt obj context =
     (let mapped = deepMap obj (resolveLeaf parser rt context)
      in deepResolve mapped)"

section \<open>The context builder\<close>

text \<open>
  \<^verbatim>\<open>process.env\<close> maps names to strings; as the value of \<^verbatim>\<open>env\<close> it is a nested
  context.
\<close>

definition envContext :: "(string \<Rightarrow> string option) \<Rightarrow> TemplateStringContext" where
  "envContext process_env = (\<lambda>name. map_option (\<lambda>s. Prim (PString s)) (process_env name))"

text \<open>
  \<^verbatim>\<open>getTemplateContext(extraContext = {})\<close> returns
  \<^verbatim>\<open>{ ...baseContext, ...extraContext }\<close>; an omitted argument is \<open>None\<close>. The function
  is \<^verbatim>\<open>async\<close> and never throws.
\<close>

definition getTemplateContext ::
  "(string \<Rightarrow> string option) \<Rightarrow> TemplateStringContext option \<Rightarrow> TemplateStringContext fate"
where
  "getTemplateContext process_env extraContext =
     (let extraContext = (case extraContext of None \<Rightarrow> Map.empty | Some c \<Rightarrow> c);
          baseContext = [''env'' \<mapsto> Nested (envContext process_env)]
      in Fulfils (baseContext ++ extraContext))"

section \<open>The parser singleton\<close>

text \<open>
  \<^verbatim>\<open>let _parser: any\<close> is the only state of the module; \<open>None\<close> is \<^verbatim>\<open>undefined\<close>.
  \<open>required\<close> is what \<^verbatim>\<open>require("./template-string-parser")\<close> does when it is run and
  \<open>generated\<close> what the fallback in the \<^verbatim>\<open>catch\<close> block does (reading the grammar and
  \<^verbatim>\<open>peg.generate\<close>): each throws or yields a parser. A parser is an object, so
  \<^verbatim>\<open>!_parser\<close> holds exactly when the variable is unset. A call returns its result and
  the new value of the variable.
\<close>

definition getParser ::
  "(error + 'p) \<Rightarrow> (error + 'p) \<Rightarrow> 'p option \<Rightarrow> (error + 'p) \<times> 'p option"
where
  "getParser required generated parser_var =
     (case parser_var of
        Some p \<Rightarrow> (Inr p, parser_var)
      | None \<Rightarrow>
          (case required of
             Inr p \<Rightarrow> (Inr p, Some p)
           | Inl err \<Rightarrow>
               (case generated of
                  Inr p \<Rightarrow> (Inr p, Some p)
                | Inl e \<Rightarrow> (Inl e, None))))"

text \<open>
  Successive calls in one process, each with what its two loaders would do: the results
  and the values of the variable after each call.
\<close>

fun getParser_calls ::
  "((error + 'p) \<times> (error + 'p)) list \<Rightarrow> 'p option \<Rightarrow> ((error + 'p) \<times> 'p option) list"
where
  "getParser_calls [] parser_var = []"
| "getParser_calls (loaders # later) parser_var =
     getParser (fst loaders) (snd loaders) parser_var
       # getParser_calls later (snd (getParser (fst loaders) (snd loaders) parser_var))"

text \<open>
  The number of calls that construct a parser: those that find the variable unset and
  leave it set.
\<close>

fun constructions :: "'p option \<Rightarrow> 'p option list \<Rightarrow> nat" where
  "constructions before [] = 0"
| "constructions before (after # later) =
     (if before = None \<and> after \<noteq> None then 1 else 0) + constructions after later"

section \<open>The parser front-end\<close>

text \<open>
  Modelled from the spec: the grammar \<^verbatim>\<open>template-string.pegjs\<close> and the parser generated
  from it are not among the sources. The spec gives the grammar as literal text
  interleaved with \<^verbatim>\<open>${identifier(.identifier)*}\<close> expressions, evaluates each expression
  by calling \<^verbatim>\<open>getKey\<close> on its parts, returns the items in order, and raises an error
  made with the supplied constructor on a malformed expression. Which characters make an
  identifier and what the message of that error is are left open, so they are
  parameters.
\<close>

record grammar =
  identifierChar :: "char \<Rightarrow> bool"
  syntaxMessage :: "string \<Rightarrow> string"

datatype segment = Literal string | Expression "string list"

text \<open>What follows \<^verbatim>\<open>${\<close>: an identifier, then \<^verbatim>\<open>}\<close> or a dot and more of the same.\<close>

function scanKeyPath :: "(char \<Rightarrow> bool) \<Rightarrow> string \<Rightarrow> (string list \<times> string) option" where
  "scanKeyPath isId s =
     (if takeWhile isId s = [] then None
      else case dropWhile isId s of
             [] \<Rightarrow> None
           | c # rest \<Rightarrow>
               if c = CHR ''}'' then Some ([takeWhile isId s], rest)
               else if c = CHR ''.'' then
                 (case scanKeyPath isId rest of
                    None \<Rightarrow> None
                  | Some (parts, rest') \<Rightarrow> Some (takeWhile isId s # parts, rest'))
               else None)"
  by pat_completeness auto

lemma dropWhile_Cons_shorter: "dropWhile P s = c # rest \<Longrightarrow> length rest < length s"
  using length_dropWhile_le [of P s] by simp

termination scanKeyPath
  by (relation "measure (\<lambda>(isId, s). length s)") (auto dest: dropWhile_Cons_shorter)

declare scanKeyPath.simps [simp del]

lemma scanKeyPath_shorter:
  "scanKeyPath isId s = Some (parts, rest) \<Longrightarrow> length rest < length s"
proof (induction isId s arbitrary: parts rest rule: scanKeyPath.induct)
  case (1 isId s)
  from "1.prems" obtain c r where drop: "dropWhile isId s = c # r"
    and ident: "takeWhile isId s \<noteq> []"
    by (subst (asm) scanKeyPath.simps) (auto split: if_splits list.splits)
  have r: "length r < length s"
    using drop by (rule dropWhile_Cons_shorter)
  show ?case
  proof (cases "c = CHR ''}''")
    case True
    with "1.prems" drop ident r show ?thesis
      by (subst (asm) scanKeyPath.simps) simp
  next
    case False
    with "1.prems" drop ident obtain parts' where dot: "c = CHR ''.''"
      and inner: "scanKeyPath isId r = Some (parts', rest)"
      by (subst (asm) scanKeyPath.simps) (auto split: if_splits option.splits)
    from "1.IH" [OF ident drop False dot inner] r show ?thesis
      by simp
  qed
qed

text \<open>One more character of literal text in front of the segments already read.\<close>

fun literalChar :: "char \<Rightarrow> segment list \<Rightarrow> segment list" where
  "literalChar c (Literal l # segs) = Literal (c # l) # segs"
| "literalChar c segs = Literal [c] # segs"

function tokenize :: "grammar \<Rightarrow> string \<Rightarrow> segment list option" where
  "tokenize g [] = Some []"
| "tokenize g [c] = Some [Literal [c]]"
| "tokenize g (c # d # s) =
     (if c = CHR ''$'' \<and> d = CHR ''{'' then
        (case scanKeyPath (identifierChar g) s of
           None \<Rightarrow> None
         | Some (parts, rest) \<Rightarrow> map_option (Cons (Expression parts)) (tokenize g rest))
      else map_option (literalChar c) (tokenize g (d # s)))"
  by pat_completeness auto

termination tokenize
  by (relation "measure (\<lambda>(g, s). length s)") (auto dest: scanKeyPath_shorter)

text \<open>The items of the segments in order; the first \<^verbatim>\<open>getKey\<close> that throws ends the parse.\<close>

fun evaluate :: "parseOptions \<Rightarrow> segment list \<Rightarrow> error + cvalue fate list" where
  "evaluate opts [] = Inr []"
| "evaluate opts (Literal s # segs) =
     (case evaluate opts segs of
        Inl e \<Rightarrow> Inl e
      | Inr items \<Rightarrow> Inr (Fulfils (Prim (PString s)) # items))"
| "evaluate opts (Expression parts # segs) =
     (case getKey opts parts of
        Inl e \<Rightarrow> Inl e
      | Inr item \<Rightarrow>
          (case evaluate opts segs of
             Inl e \<Rightarrow> Inl e
           | Inr items \<Rightarrow> Inr (item # items)))"

definition templateParser :: "grammar \<Rightarrow> parser" where
  "templateParser g string opts =
     (case tokenize g string of
        None \<Rightarrow> Inl (errorClass opts (syntaxMessage g string))
      | Some segs \<Rightarrow> evaluate opts segs)"

section \<open>Notions used to state the properties\<close>

text \<open>\<open>occursIn sub s\<close>: the string \<open>sub\<close> occurs in \<open>s\<close>.\<close>

fun startsWith :: "string \<Rightarrow> string \<Rightarrow> bool" where
  "startsWith s [] = True"
| "startsWith [] (c # sub) = False"
| "startsWith (d # s) (c # sub) = (d = c \<and> startsWith s sub)"

fun occursIn :: "string \<Rightarrow> string \<Rightarrow> bool" where
  "occursIn sub [] = (sub = [])"
| "occursIn sub (d # s) = (startsWith (d # s) sub \<or> occursIn sub s)"


text \<open>The errors of the rejected items of an array.\<close>

fun rejections :: "'a fate list \<Rightarrow> error set" where
  "rejections [] = {}"
| "rejections (Fulfils v # ps) = rejections ps"
| "rejections (Rejects E # ps) = E \<union> rejections ps"

text \<open>
  The leaves of a tree in structural order, and the rejection of the first rejected
  promise of a list, if there is one.
\<close>

fun leaves :: "'a vtree \<Rightarrow> 'a list" where
  "leaves (Leaf v) = [v]"
| "leaves (Sequence ts) = concat (map leaves ts)"
| "leaves (Mapping kvs) = concat (map (\<lambda>(k, t). leaves t) kvs)"

fun firstRejected :: "'a fate list \<Rightarrow> error set option" where
  "firstRejected [] = None"
| "firstRejected (Fulfils v # ps) = firstRejected ps"
| "firstRejected (Rejects E # ps) = Some E"




text \<open>
  The errors with which one segment of a template fails when resolved alone, and the
  choice by structural order: the failure of the first segment that fails.
\<close>

fun segmentErrors :: "parseOptions \<Rightarrow> segment \<Rightarrow> error set" where
  "segmentErrors opts (Literal s) = {}"
| "segmentErrors opts (Expression parts) =
     (case getKey opts parts of
        Inl e \<Rightarrow> {e}
      | Inr (Rejects E) \<Rightarrow> E
      | Inr (Fulfils v) \<Rightarrow> {})"

fun firstInOrder :: "error set list \<Rightarrow> error set" where
  "firstInOrder [] = {}"
| "firstInOrder (E # Es) = (if E = {} then firstInOrder Es else E)"

text \<open>
  \<open>resolvedFrom I v r\<close>: the tree \<open>r\<close> has the shape of \<open>v\<close>, with the same keys and
  the same order, every string leaf \<open>s\<close> replaced by the string \<open>I s\<close> is fulfilled
  with, and every other leaf as it was.
\<close>

fun resolvedFrom :: "(string \<Rightarrow> string fate) \<Rightarrow> Value \<Rightarrow> Value \<Rightarrow> bool" where
  "resolvedFrom I (Leaf (LString s)) r =
     (case r of Leaf (LString s') \<Rightarrow> I s = Fulfils s' | _ \<Rightarrow> False)"
| "resolvedFrom I (Leaf v) r = (r = Leaf v)"
| "resolvedFrom I (Sequence ts) r =
     (case r of Sequence rs \<Rightarrow> list_all2 (resolvedFrom I) ts rs | _ \<Rightarrow> False)"
| "resolvedFrom I (Mapping kvs) r =
     (case r of
        Mapping krs \<Rightarrow>
          list_all2 (\<lambda>(k, t) (k', r'). k' = k \<and> resolvedFrom I t r') kvs krs
      | _ \<Rightarrow> False)"

section \<open>Instances for the examples\<close>

text \<open>
  A runtime in which nothing is inherited and every object prints as
  \<^verbatim>\<open>[object Object]\<close>. No JavaScript engine is like that; it serves for examples that
  read own properties only.
\<close>

definition plainRuntime :: runtime where
  "plainRuntime =
     \<lparr> inherited = (\<lambda>v k. Undefined), toStringOf = (\<lambda>v. ''[object Object]'') \<rparr>"

text \<open>
  A runtime in which a context inherits \<^verbatim>\<open>constructor\<close> from \<^verbatim>\<open>Object.prototype\<close>, as every
  object does: it is the function \<^verbatim>\<open>Object\<close>, which returns an array it is called with.
\<close>

definition objectConstructor :: KeyResolver where
  "objectConstructor keyParts = Inr (Fulfils (Array (map (\<lambda>s. Prim (PString s)) keyParts)))"

definition objectRuntime :: runtime where
  "objectRuntime =
     \<lparr> inherited =
         (\<lambda>v k. case v of
                  Nested m \<Rightarrow> (if k = ''constructor'' then Resolver objectConstructor else Undefined)
                | _ \<Rightarrow> Undefined),
       toStringOf = (\<lambda>v. ''[object Object]'') \<rparr>"

text \<open>A grammar whose identifiers are made of letters, digits and underscores.\<close>

definition exampleGrammar :: grammar where
  "exampleGrammar =
     \<lparr> identifierChar =
         (\<lambda>c. c \<in> set ''abcdefghijklmnopqrstuvwxyzABCDEFGHIJKLMNOPQRSTUVWXYZ0123456789_''),
       syntaxMessage = (\<lambda>s. ''Invalid template string: '' @ s) \<rparr>"

text \<open>A resolver function that returns the parts it is given, joined by dots.\<close>

definition echoResolver :: KeyResolver where
  "echoResolver keyParts = Inr (Fulfils (Prim (PString (joinWith ''.'' keyParts))))"

text \<open>A resolver function that returns a promise which is rejected with the given message.\<close>

definition rejectingResolver :: "string \<Rightarrow> KeyResolver" where
  "rejectingResolver message keyParts = Inr (Rejects {OtherError message})"

section \<open>Properties of the key-path resolver\<close>

lemma map_fate_eq_Fulfils: "map_fate g r = Fulfils v \<longleftrightarrow> (\<exists>s. r = Fulfils s \<and> v = g s)"
  by (cases r) auto

lemma map_fate_eq_Rejects: "map_fate g r = Rejects E \<longleftrightarrow> r = Rejects E"
  by (cases r) auto

text \<open>The two cases of the \<^verbatim>\<open>switch\<close> on \<^verbatim>\<open>typeof value\<close>.\<close>

lemma typeof_function: "typeof v = ''function'' \<longleftrightarrow> (\<exists>f. v = Resolver f)"
  by (cases v rule: typeof.cases) auto

lemma typeof_undefined: "typeof v = ''undefined'' \<longleftrightarrow> v = Undefined"
  by (cases v rule: typeof.cases) auto

text \<open>A loop that is still running after a prefix of the parts goes on from there.\<close>

lemma resolveLoop_append:
  "accumulatorAfter rt context value pre = Some value' \<Longrightarrow>
   resolveLoop rt context path value (pre @ rest) = resolveLoop rt context path value' rest"
  by (induction pre arbitrary: "value") (auto split: cvalue.splits)

lemma nth_split: "i < length xs \<Longrightarrow> xs = take i xs @ xs ! i # drop (Suc i) xs"
  by (simp add: id_take_nth_drop)

lemma resolveLoop_at:
  assumes "i < length parts"
      and "accumulatorAfter rt context value (take i parts) = Some value'"
  shows "resolveLoop rt context path value parts =
         resolveLoop rt context path value' (parts ! i # drop (Suc i) parts)"
proof -
  have "resolveLoop rt context path value (take i parts @ parts ! i # drop (Suc i) parts) =
        resolveLoop rt context path value' (parts ! i # drop (Suc i) parts)"
    using assms(2) by (rule resolveLoop_append)
  with nth_split [OF assms(1)] show ?thesis by simp
qed

text \<open>At the end of the walk the accumulator is returned if it is a primitive.\<close>

lemma resolveLoop_end:
  "accumulatorAfter rt context value parts = Some v \<Longrightarrow>
   resolveLoop rt context path value parts =
     (if \<not> isPrimitive v then Inl (notPrimitive path) else Inr (Fulfils v))"
  using resolveLoop_append [where pre = parts and rest = "[]"] by fastforce

text \<open>
  A result is the accumulator at the end of the walk, or what a function found on the
  way has returned.
\<close>

lemma resolveLoop_result:
  "resolveLoop rt context path value parts = Inr r \<Longrightarrow>
   (\<exists>v. accumulatorAfter rt context value parts = Some v \<and> isPrimitive v \<and> r = Fulfils v) \<or>
   (\<exists>i value' f. i < length parts \<and>
      accumulatorAfter rt context value (take i parts) = Some value' \<and>
      lookupPart rt context value' (parts ! i) = Resolver f \<and>
      f (drop (Suc i) parts) = Inr r)"
proof (induction parts arbitrary: "value")
  case Nil
  then show ?case by (simp split: if_splits)
next
  case (Cons part rest)
  let ?next = "lookupPart rt context value part"
  show ?case
  proof (cases "\<exists>f. ?next = Resolver f")
    case True
    then obtain f where f: "?next = Resolver f" by blast
    with Cons.prems have "f rest = Inr r" by simp
    with f have "0 < length (part # rest) \<and>
      accumulatorAfter rt context value (take 0 (part # rest)) = Some value \<and>
      lookupPart rt context value ((part # rest) ! 0) = Resolver f \<and>
      f (drop (Suc 0) (part # rest)) = Inr r" by simp
    then show ?thesis by blast
  next
    case False
    with Cons.prems have defined: "?next \<noteq> Undefined"
      by (auto split: cvalue.splits)
    from False defined have step: "resolveLoop rt context path value (part # rest) =
        resolveLoop rt context path ?next rest"
      and acc: "\<And>ps. accumulatorAfter rt context value (part # ps) =
        accumulatorAfter rt context ?next ps"
      by (auto split: cvalue.splits)
    from Cons.prems step have "resolveLoop rt context path ?next rest = Inr r" by simp
    from Cons.IH [OF this] show ?thesis
    proof
      assume "\<exists>v. accumulatorAfter rt context ?next rest = Some v \<and> isPrimitive v \<and> r = Fulfils v"
      then show ?thesis using acc by auto
    next
      assume "\<exists>i value' f. i < length rest \<and>
        accumulatorAfter rt context ?next (take i rest) = Some value' \<and>
        lookupPart rt context value' (rest ! i) = Resolver f \<and>
        f (drop (Suc i) rest) = Inr r"
      then obtain i value' f where "i < length rest"
        "accumulatorAfter rt context ?next (take i rest) = Some value'"
        "lookupPart rt context value' (rest ! i) = Resolver f"
        "f (drop (Suc i) rest) = Inr r" by blast
      then have "Suc i < length (part # rest) \<and>
        accumulatorAfter rt context value (take (Suc i) (part # rest)) = Some value' \<and>
        lookupPart rt context value' ((part # rest) ! Suc i) = Resolver f \<and>
        f (drop (Suc (Suc i)) (part # rest)) = Inr r"
        using acc by simp
      then show ?thesis by blast
    qed
  qed
qed

lemma startsWith_append: "startsWith (sub @ s) sub"
  by (induction sub) auto

lemma occursIn_append: "occursIn sub (pre @ sub @ post)"
proof (induction pre)
  case Nil
  show ?case by (cases "sub @ post") (use startsWith_append [of sub post] in auto)
next
  case (Cons c pre)
  then show ?case by simp
qed

text \<open>
  What the walk does where it behaves as described: an unset accumulator is looked up in
  the top-level context, a truthy one in itself, and a missing value ends the call with
  the error that names the full dotted path.
\<close>

lemma lookupPart_unset:
  "lookupPart rt context Undefined part = getProperty rt (Nested context) part"
  by (simp add: lookupPart_def)

lemma lookupPart_truthy:
  "truthy value \<Longrightarrow> lookupPart rt context value part = getProperty rt value part"
  by (simp add: lookupPart_def)

lemma lookupPart_falsy:
  "\<not> truthy value \<Longrightarrow>
   lookupPart rt context value part = getProperty rt (Nested context) part"
  by (simp add: lookupPart_def)

lemma genericResolver_keyNotFound:
  assumes "i < length parts"
      and "accumulatorAfter rt context Undefined (take i parts) = Some value"
      and "lookupPart rt context value (parts ! i) = Undefined"
  shows "genericResolver rt context parts = Inl (keyNotFound (joinWith ''.'' parts))"
    and "occursIn (joinWith ''.'' parts) (''Could not find key: '' @ joinWith ''.'' parts)"
  using resolveLoop_at [OF assms(1,2)] assms(3)
    occursIn_append [of "joinWith ''.'' parts" "''Could not find key: ''" "[]"]
  by (simp_all add: genericResolver_def)

text \<open>
  C1. The walk falls back to the top-level context whenever the accumulator is falsy, not
  only while it is unset. With the context \<^verbatim>\<open>{a: "", b: "x"}\<close> and the path \<^verbatim>\<open>a.b\<close>, the
  accumulator is the empty string after the first part, and the second part is then
  looked up in the top-level context: the call returns \<^verbatim>\<open>"x"\<close> instead of failing to
  find \<^verbatim>\<open>a.b\<close>.
\<close>

theorem genericResolver_falsy_accumulator:
  "accumulatorAfter rt [''a'' \<mapsto> Prim (PString []), ''b'' \<mapsto> Prim (PString ''x'')]
     Undefined [''a''] = Some (Prim (PString [])) \<and>
   genericResolver rt [''a'' \<mapsto> Prim (PString []), ''b'' \<mapsto> Prim (PString ''x'')]
     [''a'', ''b''] = Inr (Fulfils (Prim (PString ''x'')))"
  by (simp add: genericResolver_def lookupPart_def)

text \<open>
  C2, as stated, fails twice. A value produced by a resolver function is returned without
  any check: in the empty context the path \<^verbatim>\<open>constructor\<close> finds the inherited function
  \<^verbatim>\<open>Object\<close>, which is called with the remaining parts and returns that array, not a
  primitive. And the error for a value that is not a primitive carries the path and
  nothing about the kind of the value: for \<^verbatim>\<open>{obj: {a: 1}}\<close> and the path \<^verbatim>\<open>obj\<close> the value
  is an object and the message does not say so.
\<close>

theorem function_result_unchecked_and_error_without_kind:
  "genericResolver objectRuntime Map.empty [''constructor''] = Inr (Fulfils (Array [])) \<and>
   \<not> isPrimitive (Array []) \<and>
   genericResolver objectRuntime [''obj'' \<mapsto> Nested [''a'' \<mapsto> Prim (PNumber 1)]] [''obj'']
     = Inl (TemplateStringError
              ''Value at obj exists but is not a primitive (string, number or boolean)'') \<and>
   typeof (Nested [''a'' \<mapsto> Prim (PNumber 1)]) = ''object'' \<and>
   \<not> occursIn ''object''
         ''Value at obj exists but is not a primitive (string, number or boolean)''"
  by (simp add: genericResolver_def lookupPart_def objectRuntime_def objectConstructor_def
      notPrimitive_def)

text \<open>
  C2, amended. A value the resolver returns at the end of the walk is a primitive: it has
  passed \<^verbatim>\<open>isPrimitive\<close>. Every other result is what a resolver function found on the walk
  has returned for the remaining parts, as it is and unchecked. When the fully walked
  value is not a primitive, the call fails with the error whose message is
  \<^verbatim>\<open>Value at <path> exists but is not a primitive (string, number or boolean)\<close>, which
  contains the full dotted path and nothing about the kind of the value.
\<close>

theorem genericResolver_result:
  "(\<forall>v. accumulatorAfter rt context Undefined parts = Some v \<and> isPrimitive v \<longrightarrow>
      genericResolver rt context parts = Inr (Fulfils v)) \<and>
   (\<forall>v. accumulatorAfter rt context Undefined parts = Some v \<and> \<not> isPrimitive v \<longrightarrow>
      genericResolver rt context parts =
        Inl (TemplateStringError
               (''Value at '' @ joinWith ''.'' parts @
                '' exists but is not a primitive (string, number or boolean)'')) \<and>
      occursIn (joinWith ''.'' parts)
        (''Value at '' @ joinWith ''.'' parts @
         '' exists but is not a primitive (string, number or boolean)'')) \<and>
   (\<forall>r. genericResolver rt context parts = Inr r \<longrightarrow>
      (\<exists>v. accumulatorAfter rt context Undefined parts = Some v \<and> isPrimitive v \<and>
           r = Fulfils v) \<or>
      (\<exists>i value f. i < length parts \<and>
         accumulatorAfter rt context Undefined (take i parts) = Some value \<and>
         lookupPart rt context value (parts ! i) = Resolver f \<and>
         f (drop (Suc i) parts) = Inr r))"
proof (intro conjI allI impI)
  fix v assume "accumulatorAfter rt context Undefined parts = Some v \<and> isPrimitive v"
  then show "genericResolver rt context parts = Inr (Fulfils v)"
    by (simp add: genericResolver_def resolveLoop_end)
next
  fix v assume "accumulatorAfter rt context Undefined parts = Some v \<and> \<not> isPrimitive v"
  then show "genericResolver rt context parts =
        Inl (TemplateStringError
               (''Value at '' @ joinWith ''.'' parts @
                '' exists but is not a primitive (string, number or boolean)''))"
    by (simp add: genericResolver_def resolveLoop_end notPrimitive_def)
next
  show "occursIn (joinWith ''.'' parts)
        (''Value at '' @ joinWith ''.'' parts @
         '' exists but is not a primitive (string, number or boolean)'')"
    by (rule occursIn_append)
next
  fix r assume "genericResolver rt context parts = Inr r"
  then show "(\<exists>v. accumulatorAfter rt context Undefined parts = Some v \<and> isPrimitive v \<and>
           r = Fulfils v) \<or>
      (\<exists>i value f. i < length parts \<and>
         accumulatorAfter rt context Undefined (take i parts) = Some value \<and>
         lookupPart rt context value (parts ! i) = Resolver f \<and>
         f (drop (Suc i) parts) = Inr r)"
    unfolding genericResolver_def by (rule resolveLoop_result)
qed

theorem genericResolver_result_witness:
  "accumulatorAfter objectRuntime [''name'' \<mapsto> Prim (PString ''world'')] Undefined [''name'']
     = Some (Prim (PString ''world'')) \<and>
   isPrimitive (Prim (PString ''world'')) \<and>
   genericResolver objectRuntime [''name'' \<mapsto> Prim (PString ''world'')] [''name'']
     = Inr (Fulfils (Prim (PString ''world''))) \<and>
   accumulatorAfter objectRuntime [''obj'' \<mapsto> Nested [''a'' \<mapsto> Prim (PNumber 1)]]
     Undefined [''obj''] = Some (Nested [''a'' \<mapsto> Prim (PNumber 1)]) \<and>
   \<not> isPrimitive (Nested [''a'' \<mapsto> Prim (PNumber 1)]) \<and>
   genericResolver objectRuntime [''obj'' \<mapsto> Nested [''a'' \<mapsto> Prim (PNumber 1)]] [''obj'']
     = Inl (TemplateStringError
              ''Value at obj exists but is not a primitive (string, number or boolean)'') \<and>
   genericResolver objectRuntime Map.empty [''constructor''] = Inr (Fulfils (Array [])) \<and>
   accumulatorAfter objectRuntime Map.empty Undefined [''constructor''] = None \<and>
   (0::nat) < length [''constructor''] \<and>
   accumulatorAfter objectRuntime Map.empty Undefined (take 0 [''constructor''])
     = Some Undefined \<and>
   lookupPart objectRuntime Map.empty Undefined ([''constructor''] ! 0)
     = Resolver objectConstructor \<and>
   objectConstructor (drop (Suc 0) [''constructor'']) = Inr (Fulfils (Array []))"
proof -
  let ?named = "[''name'' \<mapsto> Prim (PString ''world'')]"
  let ?nested = "[''obj'' \<mapsto> Nested [''a'' \<mapsto> Prim (PNumber 1)]]"
  have walk1: "accumulatorAfter objectRuntime ?named Undefined [''name'']
      = Some (Prim (PString ''world'')) \<and> isPrimitive (Prim (PString ''world''))"
    by (simp add: lookupPart_def)
  have walk2: "accumulatorAfter objectRuntime ?nested Undefined [''obj'']
      = Some (Nested [''a'' \<mapsto> Prim (PNumber 1)]) \<and>
      \<not> isPrimitive (Nested [''a'' \<mapsto> Prim (PNumber 1)])"
    by (simp add: lookupPart_def)
  have r1: "genericResolver objectRuntime ?named [''name'']
      = Inr (Fulfils (Prim (PString ''world'')))"
    using genericResolver_result [of objectRuntime ?named "[''name'']"] walk1 by blast
  have "genericResolver objectRuntime ?nested [''obj'']
      = Inl (TemplateStringError
               (''Value at '' @ joinWith ''.'' [''obj''] @
                '' exists but is not a primitive (string, number or boolean)''))"
    using genericResolver_result [of objectRuntime ?nested "[''obj'']"] walk2 by blast
  then have r2: "genericResolver objectRuntime ?nested [''obj'']
      = Inl (TemplateStringError
               ''Value at obj exists but is not a primitive (string, number or boolean)'')"
    by simp
  have r3: "genericResolver objectRuntime Map.empty [''constructor'']
      = Inr (Fulfils (Array []))"
    by (simp add: genericResolver_def lookupPart_def objectRuntime_def objectConstructor_def)
  have walk3: "accumulatorAfter objectRuntime Map.empty Undefined [''constructor''] = None"
    and look3: "lookupPart objectRuntime Map.empty Undefined ([''constructor''] ! 0)
      = Resolver objectConstructor"
    and call3: "objectConstructor (drop (Suc 0) [''constructor'']) = Inr (Fulfils (Array []))"
    by (simp_all add: lookupPart_def objectRuntime_def objectConstructor_def)
  from walk1 walk2 r1 r2 r3 walk3 look3 call3 show ?thesis by simp
qed

text \<open>
  C3. When the value looked up at index \<open>i\<close> is a resolver function, the resolver
  calls it with the parts after \<open>i\<close> and returns what it returns (or throws what it
  throws); the parts after \<open>i\<close> are not walked.
\<close>

theorem resolver_function_short_circuits:
  assumes "i < length parts"
      and "accumulatorAfter rt context Undefined (take i parts) = Some value"
      and "lookupPart rt context value (parts ! i) = Resolver f"
  shows "genericResolver rt context parts = f (drop (Suc i) parts)"
  using resolveLoop_at [OF assms(1,2)] assms(3)
  by (simp add: genericResolver_def)

theorem resolver_function_short_circuits_witness:
  "(1::nat) < length [''services'', ''lookup'', ''db'', ''port''] \<and>
   accumulatorAfter plainRuntime
     [''services'' \<mapsto> Nested [''lookup'' \<mapsto> Resolver echoResolver],
      ''db'' \<mapsto> Nested [''port'' \<mapsto> Prim (PNumber 5432)]]
     Undefined (take 1 [''services'', ''lookup'', ''db'', ''port''])
     = Some (Nested [''lookup'' \<mapsto> Resolver echoResolver]) \<and>
   lookupPart plainRuntime
     [''services'' \<mapsto> Nested [''lookup'' \<mapsto> Resolver echoResolver],
      ''db'' \<mapsto> Nested [''port'' \<mapsto> Prim (PNumber 5432)]]
     (Nested [''lookup'' \<mapsto> Resolver echoResolver])
     ([''services'', ''lookup'', ''db'', ''port''] ! 1) = Resolver echoResolver \<and>
   echoResolver (drop (Suc 1) [''services'', ''lookup'', ''db'', ''port''])
     = Inr (Fulfils (Prim (PString ''db.port''))) \<and>
   genericResolver plainRuntime
     [''services'' \<mapsto> Nested [''lookup'' \<mapsto> Resolver echoResolver],
      ''db'' \<mapsto> Nested [''port'' \<mapsto> Prim (PNumber 5432)]]
     [''services'', ''lookup'', ''db'', ''port''] = Inr (Fulfils (Prim (PString ''db.port'')))"
  using resolver_function_short_circuits
          [of 1 "[''services'', ''lookup'', ''db'', ''port'']" plainRuntime
              "[''services'' \<mapsto> Nested [''lookup'' \<mapsto> Resolver echoResolver],
                ''db'' \<mapsto> Nested [''port'' \<mapsto> Prim (PNumber 5432)]]"
              "Nested [''lookup'' \<mapsto> Resolver echoResolver]" echoResolver]
  by (simp add: lookupPart_def plainRuntime_def echoResolver_def)

text \<open>
  C10. With an empty list of parts the loop body is never run, the accumulator stays
  \<^verbatim>\<open>undefined\<close>, and the call throws the error for a value that is not a primitive, with
  an empty path; that error is not the one for a missing key, whatever the path.
\<close>

theorem empty_key_path:
  "genericResolver rt context [] = Inl (notPrimitive []) \<and>
   accumulatorAfter rt context Undefined [] = Some Undefined \<and>
   (\<forall>path. notPrimitive [] \<noteq> keyNotFound path)"
  by (simp add: genericResolver_def notPrimitive_def keyNotFound_def)

section \<open>Properties of the string interpolator and the deep resolver\<close>

subsection \<open>Awaiting all items\<close>


lemma Bluebird_all_FulfilsD: "Bluebird_all ps = Fulfils vs \<Longrightarrow> ps = map Fulfils vs"
proof (induction ps arbitrary: vs)
  case Nil
  then show ?case by simp
next
  case (Cons p ps)
  then show ?case
    by (cases p; cases "Bluebird_all ps") auto
qed

lemma rejections_map_Fulfils: "rejections (map Fulfils vs) = {}"
  by (induction vs) auto

lemma Bluebird_all_RejectsD: "Bluebird_all ps = Rejects E \<Longrightarrow> E = rejections ps"
proof (induction ps arbitrary: E)
  case Nil
  then show ?case by simp
next
  case (Cons p ps)
  show ?case
  proof (cases "Bluebird_all ps")
    case (Fulfils vs)
    then have "rejections ps = {}"
      using Bluebird_all_FulfilsD rejections_map_Fulfils by metis
    with Cons.prems Fulfils show ?thesis by (cases p) auto
  next
    case (Rejects E')
    with Cons show ?thesis by (cases p) auto
  qed
qed

lemma Bluebird_all_Rejects:
  assumes "Rejects E \<in> set ps"
  shows "Bluebird_all ps = Rejects (rejections ps)"
proof (cases "Bluebird_all ps")
  case (Fulfils vs)
  then have "ps = map Fulfils vs" by (rule Bluebird_all_FulfilsD)
  with assms show ?thesis by auto
next
  case (Rejects E')
  then show ?thesis using Bluebird_all_RejectsD by blast
qed

lemma subset_rejections: "Rejects E \<in> set ps \<Longrightarrow> E \<subseteq> rejections ps"
  by (induction ps rule: rejections.induct) auto

lemma rejections_mem: "e \<in> rejections ps \<Longrightarrow> \<exists>E. Rejects E \<in> set ps \<and> e \<in> E"
  by (induction ps rule: rejections.induct) auto

subsection \<open>The text of the items\<close>


subsection \<open>The first failing leaf\<close>

lemma allInOrder_FulfilsD: "allInOrder ps = Fulfils vs \<Longrightarrow> ps = map Fulfils vs"
proof (induction ps arbitrary: vs rule: allInOrder.induct)
  case 1
  then show ?case by simp
next
  case (2 v ps)
  then show ?case by (auto simp: map_fate_eq_Fulfils)
next
  case (3 E ps)
  then show ?case by simp
qed

lemma allInOrder_Rejects_iff: "allInOrder ps = Rejects E \<longleftrightarrow> firstRejected ps = Some E"
  by (induction ps rule: allInOrder.induct) (auto simp: map_fate_eq_Rejects)

lemma firstRejected_append:
  "firstRejected (ps @ qs) =
     (case firstRejected ps of Some E \<Rightarrow> Some E | None \<Rightarrow> firstRejected qs)"
  by (induction ps rule: firstRejected.induct) auto

lemma firstRejected_Some_mem: "firstRejected ps = Some E \<Longrightarrow> Rejects E \<in> set ps"
  by (induction ps rule: firstRejected.induct) auto

lemma firstRejected_exists: "Rejects E \<in> set ps \<Longrightarrow> \<exists>E'. firstRejected ps = Some E'"
  by (induction ps rule: firstRejected.induct) auto

lemma firstRejected_map_concat:
  assumes "\<And>x E. x \<in> set xs \<Longrightarrow> g x = Rejects E \<longleftrightarrow> firstRejected (h x) = Some E"
  shows "firstRejected (map g xs) = firstRejected (concat (map h xs))"
  using assms
proof (induction xs)
  case Nil
  then show ?case by simp
next
  case (Cons x xs)
  then have IH: "firstRejected (map g xs) = firstRejected (concat (map h xs))" by simp
  show ?case
  proof (cases "g x")
    case (Fulfils v)
    have "firstRejected (h x) = None"
    proof (cases "firstRejected (h x)")
      case (Some E)
      then have "g x = Rejects E" using Cons.prems [of x E] by simp
      with Fulfils show ?thesis by simp
    qed simp
    with Fulfils IH show ?thesis by (simp add: firstRejected_append)
  next
    case (Rejects E)
    then have "firstRejected (h x) = Some E" using Cons.prems [of x E] by simp
    with Rejects show ?thesis by (simp add: firstRejected_append)
  qed
qed

lemma deepResolve_Rejects_iff:
  "deepResolve t = Rejects E \<longleftrightarrow> firstRejected (leaves t) = Some E"
proof (induction t arbitrary: E)
  case (Leaf p)
  then show ?case by (cases p) auto
next
  case (Sequence ts)
  have "firstRejected (map deepResolve ts) = firstRejected (concat (map leaves ts))"
    by (rule firstRejected_map_concat) (rule Sequence.IH)
  then show ?case by (simp add: map_fate_eq_Rejects allInOrder_Rejects_iff)
next
  case (Mapping kvs)
  have "firstRejected (map (\<lambda>(k, t). deepResolve t) kvs) =
        firstRejected (concat (map (\<lambda>(k, t). leaves t) kvs))"
  proof (rule firstRejected_map_concat)
    fix kt E assume mem: "kt \<in> set kvs"
    obtain k t where kt: "kt = (k, t)" by (cases kt)
    from mem kt have "deepResolve t = Rejects E \<longleftrightarrow> firstRejected (leaves t) = Some E"
      using Mapping.IH [of "(k, t)" t E] by simp
    with kt show "(case kt of (k, t) \<Rightarrow> deepResolve t) = Rejects E \<longleftrightarrow>
               firstRejected (case kt of (k, t) \<Rightarrow> leaves t) = Some E"
      by simp
  qed
  then show ?case by (simp add: map_fate_eq_Rejects allInOrder_Rejects_iff)
qed

lemma leaves_deepMap: "leaves (deepMap t f) = map f (leaves t)"
proof (induction t)
  case (Leaf v)
  then show ?case by simp
next
  case (Sequence ts)
  have "map (\<lambda>t. leaves (deepMap t f)) ts = map (\<lambda>t. map f (leaves t)) ts"
    by (rule map_cong) (simp_all add: Sequence.IH)
  then have "concat (map (\<lambda>t. leaves (deepMap t f)) ts) = concat (map (\<lambda>t. map f (leaves t)) ts)"
    by (rule arg_cong)
  then show ?case by (simp add: map_concat comp_def)
next
  case (Mapping kvs)
  have "map (\<lambda>kt. leaves (deepMap (snd kt) f)) kvs = map (\<lambda>kt. map f (leaves (snd kt))) kvs"
  proof (rule map_cong)
    fix kt assume mem: "kt \<in> set kvs"
    obtain k t where kt: "kt = (k, t)" by (cases kt)
    with mem show "leaves (deepMap (snd kt) f) = map f (leaves (snd kt))"
      using Mapping.IH [of "(k, t)" t] by simp
  qed simp
  then have "concat (map (\<lambda>kt. leaves (deepMap (snd kt) f)) kvs) =
             concat (map (\<lambda>kt. map f (leaves (snd kt))) kvs)"
    by (rule arg_cong)
  then show ?case by (simp add: map_concat comp_def case_prod_unfold)
qed

lemma set_leaves: "set (leaves t) = set_vtree t"
proof (induction t)
  case (Leaf v)
  then show ?case by simp
next
  case (Sequence ts)
  then show ?case by auto
next
  case (Mapping kvs)
  have "(\<Union>kt\<in>set kvs. set (case kt of (k, t) \<Rightarrow> leaves t)) =
        (\<Union>kt\<in>set kvs. \<Union>t\<in>Basic_BNFs.snds kt. set_vtree t)"
    by (intro SUP_cong refl) (auto split: prod.splits simp: Mapping.IH)
  then show ?case by simp
qed

lemma resolveTemplateStrings_Rejects_iff:
  "resolveTemplateStrings parser rt obj context = Rejects E \<longleftrightarrow>
   firstRejected (map (resolveLeaf parser rt context) (leaves obj)) = Some E"
  by (simp add: resolveTemplateStrings_def deepResolve_Rejects_iff leaves_deepMap)

lemma resolveLeaf_Rejects:
  "resolveLeaf parser rt context v = Rejects E \<Longrightarrow>
   \<exists>s. v = LString s \<and> parseTemplateString parser rt s context = Rejects E"
  by (cases v) (auto simp: resolveLeaf_def map_fate_eq_Rejects)

text \<open>
  The deep resolver succeeds whenever the interpolation of every string leaf does.
\<close>

lemma resolveTemplateStrings_succeeds:
  assumes "\<And>s. LString s \<in> set_vtree obj \<Longrightarrow> \<exists>s'. parseTemplateString parser rt s context = Fulfils s'"
  shows "\<exists>r. resolveTemplateStrings parser rt obj context = Fulfils r"
proof (cases "resolveTemplateStrings parser rt obj context")
  case (Fulfils r)
  then show ?thesis by simp
next
  case (Rejects E)
  then have "Rejects E \<in> set (map (resolveLeaf parser rt context) (leaves obj))"
    by (simp only: resolveTemplateStrings_Rejects_iff firstRejected_Some_mem)
  then obtain v where v: "v \<in> set_vtree obj" and "resolveLeaf parser rt context v = Rejects E"
    by (auto simp: set_leaves)
  then obtain s where "v = LString s" "parseTemplateString parser rt s context = Rejects E"
    using resolveLeaf_Rejects by blast
  with v assms show ?thesis by fastforce
qed

subsection \<open>The parser front-end\<close>




lemma evaluate_error:
  "evaluate opts segs = Inl e \<Longrightarrow>
   \<exists>parts. Expression parts \<in> set segs \<and> getKey opts parts = Inl e"
  by (induction opts segs rule: evaluate.induct) (auto split: sum.splits)

lemma evaluate_aborts:
  "Expression parts \<in> set segs \<Longrightarrow> getKey opts parts = Inl e \<Longrightarrow>
   \<exists>e'. evaluate opts segs = Inl e'"
  by (induction opts segs rule: evaluate.induct) (auto split: sum.splits)

lemma parseTemplateString_thrown:
  "parser string \<lparr> getKey = genericResolver rt context, errorClass = TemplateStringError \<rparr> = Inl e
   \<Longrightarrow> parseTemplateString parser rt string context = Rejects {e}"
  by (simp add: parseTemplateString_def)

text \<open>
  With the parser front-end above, a malformed template and a key-path resolver that
  throws both end the call with that error.
\<close>

lemma templateParser_malformed:
  "tokenize g string = None \<Longrightarrow>
   parseTemplateString (templateParser g) rt string context
     = Rejects {TemplateStringError (syntaxMessage g string)}"
  by (simp add: parseTemplateString_def templateParser_def)

lemma templateParser_throws:
  assumes "tokenize g string = Some segs"
      and "Expression parts \<in> set segs"
      and "genericResolver rt context parts = Inl e"
  shows "\<exists>parts' e'. Expression parts' \<in> set segs \<and>
           genericResolver rt context parts' = Inl e' \<and>
           parseTemplateString (templateParser g) rt string context = Rejects {e'}"
proof -
  let ?opts = "\<lparr> getKey = genericResolver rt context, errorClass = TemplateStringError \<rparr>"
  from assms(2,3) obtain e' where e': "evaluate ?opts segs = Inl e'"
    using evaluate_aborts [of parts segs ?opts e] by auto
  then obtain parts' where "Expression parts' \<in> set segs"
    and "genericResolver rt context parts' = Inl e'"
    using evaluate_error [of ?opts segs e'] by auto
  moreover from e' assms(1) have "templateParser g string ?opts = Inl e'"
    by (simp add: templateParser_def)
  then have "parseTemplateString (templateParser g) rt string context = Rejects {e'}"
    by (rule parseTemplateString_thrown)
  ultimately show ?thesis by blast
qed


lemma parseTemplateString_rejected:
  "parser string \<lparr> getKey = genericResolver rt context, errorClass = TemplateStringError \<rparr> = Inr parsed
   \<Longrightarrow> Rejects E \<in> set parsed
   \<Longrightarrow> parseTemplateString parser rt string context = Rejects (rejections parsed)"
  by (simp add: parseTemplateString_def Bluebird_all_Rejects)

subsection \<open>The shape of a resolved tree\<close>

lemma map_eq_map_list_all2:
  "map f xs = map g ys \<longleftrightarrow> list_all2 (\<lambda>x y. f x = g y) xs ys"
proof (induction xs arbitrary: ys)
  case Nil
  then show ?case by auto
next
  case (Cons x xs)
  then show ?case by (cases ys) auto
qed

lemma deepResolve_deepMap_Fulfils:
  "deepResolve (deepMap obj (resolveLeaf parser rt context)) = Fulfils r \<Longrightarrow>
   resolvedFrom (\<lambda>s. parseTemplateString parser rt s context) obj r"
proof (induction obj arbitrary: r)
  case (Leaf v)
  then show ?case
    by (cases v) (auto simp: resolveLeaf_def map_fate_eq_Fulfils)
next
  case (Sequence ts)
  from Sequence.prems obtain rs where r: "r = Sequence rs"
    and all: "map (\<lambda>t. deepResolve (deepMap t (resolveLeaf parser rt context))) ts = map Fulfils rs"
    by (auto simp: map_fate_eq_Fulfils comp_def dest: allInOrder_FulfilsD)
  from all have "list_all2 (\<lambda>t r. deepResolve (deepMap t (resolveLeaf parser rt context)) = Fulfils r) ts rs"
    by (simp add: map_eq_map_list_all2)
  then have "list_all2 (resolvedFrom (\<lambda>s. parseTemplateString parser rt s context)) ts rs"
    using Sequence.IH by (auto simp: list_all2_conv_all_nth)
  with r show ?case by simp
next
  case (Mapping kvs)
  from Mapping.prems obtain rs where r: "r = Mapping (zip (map fst kvs) rs)"
    and all: "map (\<lambda>kt. deepResolve (deepMap (snd kt) (resolveLeaf parser rt context))) kvs = map Fulfils rs"
    by (auto simp: map_fate_eq_Fulfils comp_def case_prod_unfold dest: allInOrder_FulfilsD)
  from all have rel: "list_all2 (\<lambda>kt r. deepResolve (deepMap (snd kt) (resolveLeaf parser rt context)) = Fulfils r) kvs rs"
    by (simp add: map_eq_map_list_all2)
  then have len: "length rs = length kvs"
    by (simp add: list_all2_lengthD)
  have "list_all2 (\<lambda>(k, t) (k', r'). k' = k \<and> resolvedFrom (\<lambda>s. parseTemplateString parser rt s context) t r')
          kvs (zip (map fst kvs) rs)"
    unfolding list_all2_conv_all_nth
  proof (intro conjI allI impI)
    show "length kvs = length (zip (map fst kvs) rs)" using len by simp
  next
    fix i assume i: "i < length kvs"
    obtain k t where kt: "kvs ! i = (k, t)" by (cases "kvs ! i")
    have mem: "(k, t) \<in> set kvs" using i kt by (metis nth_mem)
    have "deepResolve (deepMap t (resolveLeaf parser rt context)) = Fulfils (rs ! i)"
      using rel i kt by (auto simp: list_all2_conv_all_nth)
    then have "resolvedFrom (\<lambda>s. parseTemplateString parser rt s context) t (rs ! i)"
      using Mapping.IH [OF mem] by simp
    then show "(case kvs ! i of (k, t) \<Rightarrow> \<lambda>(k', r'). k' = k \<and> resolvedFrom (\<lambda>s. parseTemplateString parser rt s context) t r')
                (zip (map fst kvs) rs ! i)"
      using i len kt by simp
  qed
  with r show ?case by simp
qed

subsection \<open>Interpolation and deep resolution\<close>

text \<open>
  C4, as stated, fails: the error reported is not chosen by structural order. In
  \<^verbatim>\<open>${job.id}-${missing.key}\<close> the first expression is resolved by a function whose
  promise is rejected, the second is a missing key. In structural order the first
  failure is the rejection; the call reports the missing key, which is thrown while the
  template is parsed, before any promise is awaited.
\<close>

theorem error_not_by_structural_order:
  "tokenize exampleGrammar ''${job.id}-${missing.key}''
     = Some [Expression [''job'', ''id''], Literal ''-'', Expression [''missing'', ''key'']] \<and>
   firstInOrder
     (map (segmentErrors
             \<lparr> getKey = genericResolver plainRuntime
                           [''job'' \<mapsto> Resolver (rejectingResolver ''boom'')],
               errorClass = TemplateStringError \<rparr>)
        [Expression [''job'', ''id''], Literal ''-'', Expression [''missing'', ''key'']])
     = {OtherError ''boom''} \<and>
   parseTemplateString (templateParser exampleGrammar) plainRuntime ''${job.id}-${missing.key}''
     [''job'' \<mapsto> Resolver (rejectingResolver ''boom'')]
     = Rejects {keyNotFound ''missing.key''} \<and>
   keyNotFound ''missing.key'' \<noteq> OtherError ''boom''"
  by (simp add: parseTemplateString_def templateParser_def exampleGrammar_def plainRuntime_def
      scanKeyPath.simps genericResolver_def lookupPart_def rejectingResolver_def keyNotFound_def)

text \<open>
  C4, amended. For \<^verbatim>\<open>parseTemplateString\<close>: an error thrown while the template is parsed
  (by the parser, or by the key-path resolver it calls) is the one error of the call,
  whatever pending results there are. Otherwise, when some pending result is rejected,
  the call is rejected with one of the errors of the rejected results, whichever settles
  first; the error is determined when they have a single error among them. For
  \<^verbatim>\<open>resolveTemplateStrings\<close> the error is chosen by structural order: it is the one with
  which the interpolation of the first failing leaf is rejected.
\<close>

theorem reported_error:
  "(\<forall>e. parser string \<lparr> getKey = genericResolver rt context,
                          errorClass = TemplateStringError \<rparr> = Inl e \<longrightarrow>
      parseTemplateString parser rt string context = Rejects {e}) \<and>
   (\<forall>parsed E. parser string \<lparr> getKey = genericResolver rt context,
                                 errorClass = TemplateStringError \<rparr> = Inr parsed \<and>
        Rejects E \<in> set parsed \<longrightarrow>
      parseTemplateString parser rt string context = Rejects (rejections parsed)) \<and>
   (\<forall>E. firstRejected (map (resolveLeaf parser rt context) (leaves obj)) = Some E \<longrightarrow>
      resolveTemplateStrings parser rt obj context = Rejects E)"
  using parseTemplateString_thrown parseTemplateString_rejected
    resolveTemplateStrings_Rejects_iff
  by blast

theorem reported_error_witness:
  "templateParser exampleGrammar ''${job.id}-${missing.key}''
     \<lparr> getKey = genericResolver plainRuntime [''job'' \<mapsto> Resolver (rejectingResolver ''boom'')],
       errorClass = TemplateStringError \<rparr> = Inl (keyNotFound ''missing.key'') \<and>
   parseTemplateString (templateParser exampleGrammar) plainRuntime ''${job.id}-${missing.key}''
     [''job'' \<mapsto> Resolver (rejectingResolver ''boom'')]
     = Rejects {keyNotFound ''missing.key''} \<and>
   templateParser exampleGrammar ''${job.id}-${task.id}''
     \<lparr> getKey = genericResolver plainRuntime
                   [''job'' \<mapsto> Resolver (rejectingResolver ''boom''),
                    ''task'' \<mapsto> Resolver (rejectingResolver ''bang'')],
       errorClass = TemplateStringError \<rparr>
     = Inr [Rejects {OtherError ''boom''}, Fulfils (Prim (PString ''-'')),
            Rejects {OtherError ''bang''}] \<and>
   Rejects {OtherError ''boom''}
     \<in> set [Rejects {OtherError ''boom''}, Fulfils (Prim (PString ''-'')),
            Rejects {OtherError ''bang''}] \<and>
   parseTemplateString (templateParser exampleGrammar) plainRuntime ''${job.id}-${task.id}''
     [''job'' \<mapsto> Resolver (rejectingResolver ''boom''),
      ''task'' \<mapsto> Resolver (rejectingResolver ''bang'')]
     = Rejects {OtherError ''boom'', OtherError ''bang''} \<and>
   firstRejected
     (map (resolveLeaf (templateParser exampleGrammar) plainRuntime Map.empty)
        (leaves (Sequence [Leaf (LNumber 1), Leaf (LString ''${a}''), Leaf (LString ''${b}'')])))
     = Some {keyNotFound ''a''} \<and>
   resolveTemplateStrings (templateParser exampleGrammar) plainRuntime
     (Sequence [Leaf (LNumber 1), Leaf (LString ''${a}''), Leaf (LString ''${b}'')]) Map.empty
     = Rejects {keyNotFound ''a''}"
proof -
  let ?ctx1 = "[''job'' \<mapsto> Resolver (rejectingResolver ''boom'')]"
  let ?ctx2 = "[''job'' \<mapsto> Resolver (rejectingResolver ''boom''),
                ''task'' \<mapsto> Resolver (rejectingResolver ''bang'')]"
  let ?obj = "Sequence [Leaf (LNumber 1), Leaf (LString ''${a}''), Leaf (LString ''${b}'')]"
  have thrown: "templateParser exampleGrammar ''${job.id}-${missing.key}''
     \<lparr> getKey = genericResolver plainRuntime ?ctx1, errorClass = TemplateStringError \<rparr>
     = Inl (keyNotFound ''missing.key'')"
    by (simp add: templateParser_def exampleGrammar_def plainRuntime_def scanKeyPath.simps
        genericResolver_def lookupPart_def rejectingResolver_def)
  have parsed: "templateParser exampleGrammar ''${job.id}-${task.id}''
     \<lparr> getKey = genericResolver plainRuntime ?ctx2, errorClass = TemplateStringError \<rparr>
     = Inr [Rejects {OtherError ''boom''}, Fulfils (Prim (PString ''-'')),
            Rejects {OtherError ''bang''}]"
    by (simp add: templateParser_def exampleGrammar_def plainRuntime_def scanKeyPath.simps
        genericResolver_def lookupPart_def rejectingResolver_def)
  have first: "firstRejected
     (map (resolveLeaf (templateParser exampleGrammar) plainRuntime Map.empty) (leaves ?obj))
     = Some {keyNotFound ''a''}"
    by (simp add: resolveLeaf_def parseTemplateString_def templateParser_def exampleGrammar_def
        plainRuntime_def scanKeyPath.simps genericResolver_def lookupPart_def)
  have mem2: "Rejects {OtherError ''boom''}
     \<in> set [Rejects {OtherError ''boom''}, Fulfils (Prim (PString ''-'')),
            Rejects {OtherError ''bang''}]"
    by simp
  have r1: "parseTemplateString (templateParser exampleGrammar) plainRuntime
      ''${job.id}-${missing.key}'' ?ctx1 = Rejects {keyNotFound ''missing.key''}"
    using reported_error [of "templateParser exampleGrammar" "''${job.id}-${missing.key}''"
        plainRuntime ?ctx1 ?obj] thrown by blast
  have "parseTemplateString (templateParser exampleGrammar) plainRuntime
      ''${job.id}-${task.id}'' ?ctx2
      = Rejects (rejections [Rejects {OtherError ''boom''}, Fulfils (Prim (PString ''-'')),
                             Rejects {OtherError ''bang''}])"
    using reported_error [of "templateParser exampleGrammar" "''${job.id}-${task.id}''"
        plainRuntime ?ctx2 ?obj] parsed mem2 by blast
  then have r2: "parseTemplateString (templateParser exampleGrammar) plainRuntime
      ''${job.id}-${task.id}'' ?ctx2 = Rejects {OtherError ''boom'', OtherError ''bang''}"
    by (simp add: insert_commute)
  have r3: "resolveTemplateStrings (templateParser exampleGrammar) plainRuntime ?obj Map.empty
     = Rejects {keyNotFound ''a''}"
    using reported_error [of "templateParser exampleGrammar" "''x''" plainRuntime Map.empty ?obj]
      first by blast
  from thrown parsed mem2 first r1 r2 r3 show ?thesis by blast
qed

text \<open>
  C5. When \<^verbatim>\<open>resolveTemplateStrings\<close> succeeds, its result has the shape of its argument:
  sequences keep their length and order, mappings their keys in order, every string leaf
  is replaced by what \<^verbatim>\<open>parseTemplateString\<close> makes of it, and every other leaf is
  unchanged.
\<close>

theorem resolveAll_preserves_shape:
  "resolveTemplateStrings parser rt obj context = Fulfils r \<Longrightarrow>
   resolvedFrom (\<lambda>s. parseTemplateString parser rt s context) obj r"
  by (simp add: resolveTemplateStrings_def deepResolve_deepMap_Fulfils)

theorem resolveAll_preserves_shape_witness:
  "resolveTemplateStrings (templateParser exampleGrammar) plainRuntime
     (Mapping [(''a'', Leaf (LString ''${x}'')),
               (''b'', Sequence [Leaf (LNumber 1), Leaf (LString ''${y}'')]),
               (''c'', Leaf (LNumber 2))])
     [''x'' \<mapsto> Prim (PString ''X''), ''y'' \<mapsto> Prim (PString ''Y'')]
     = Fulfils (Mapping [(''a'', Leaf (LString ''X'')),
                         (''b'', Sequence [Leaf (LNumber 1), Leaf (LString ''Y'')]),
                         (''c'', Leaf (LNumber 2))]) \<and>
   resolvedFrom
     (\<lambda>s. parseTemplateString (templateParser exampleGrammar) plainRuntime s
            [''x'' \<mapsto> Prim (PString ''X''), ''y'' \<mapsto> Prim (PString ''Y'')])
     (Mapping [(''a'', Leaf (LString ''${x}'')),
               (''b'', Sequence [Leaf (LNumber 1), Leaf (LString ''${y}'')]),
               (''c'', Leaf (LNumber 2))])
     (Mapping [(''a'', Leaf (LString ''X'')),
               (''b'', Sequence [Leaf (LNumber 1), Leaf (LString ''Y'')]),
               (''c'', Leaf (LNumber 2))])"
proof -
  have run: "resolveTemplateStrings (templateParser exampleGrammar) plainRuntime
     (Mapping [(''a'', Leaf (LString ''${x}'')),
               (''b'', Sequence [Leaf (LNumber 1), Leaf (LString ''${y}'')]),
               (''c'', Leaf (LNumber 2))])
     [''x'' \<mapsto> Prim (PString ''X''), ''y'' \<mapsto> Prim (PString ''Y'')]
     = Fulfils (Mapping [(''a'', Leaf (LString ''X'')),
                         (''b'', Sequence [Leaf (LNumber 1), Leaf (LString ''Y'')]),
                         (''c'', Leaf (LNumber 2))])"
    by (simp add: resolveTemplateStrings_def resolveLeaf_def parseTemplateString_def
        templateParser_def exampleGrammar_def plainRuntime_def scanKeyPath.simps
        genericResolver_def lookupPart_def)
  from run resolveAll_preserves_shape [OF run] show ?thesis by (rule conjI)
qed



text \<open>
  C7. An error aborts the whole call and is passed on as it is. What the parser throws,
  be it its own error or one the key-path resolver raised in it, rejects
  \<^verbatim>\<open>parseTemplateString\<close> with that error alone; a rejected item rejects it with the
  errors of the rejected items and no others; and when the interpolation of a string
  leaf is rejected, \<^verbatim>\<open>resolveTemplateStrings\<close> is rejected with exactly the rejection of
  the interpolation of one of its string leaves. In none of these cases is there a
  result.
\<close>

theorem errors_abort_the_call:
  "(\<forall>e. parser string \<lparr> getKey = genericResolver rt context,
                          errorClass = TemplateStringError \<rparr> = Inl e \<longrightarrow>
      parseTemplateString parser rt string context = Rejects {e}) \<and>
   (\<forall>parsed E. parser string \<lparr> getKey = genericResolver rt context,
                                 errorClass = TemplateStringError \<rparr> = Inr parsed \<and>
        Rejects E \<in> set parsed \<longrightarrow>
      (\<exists>E'. parseTemplateString parser rt string context = Rejects E' \<and> E \<subseteq> E' \<and>
            (\<forall>e. e \<in> E' \<longrightarrow> (\<exists>E''. Rejects E'' \<in> set parsed \<and> e \<in> E'')))) \<and>
   (\<forall>s E. LString s \<in> set_vtree obj \<and>
        parseTemplateString parser rt s context = Rejects E \<longrightarrow>
      (\<exists>s' E'. LString s' \<in> set_vtree obj \<and>
         parseTemplateString parser rt s' context = Rejects E' \<and>
         resolveTemplateStrings parser rt obj context = Rejects E'))"
proof (intro conjI allI impI)
  fix e
  assume "parser string \<lparr> getKey = genericResolver rt context,
                          errorClass = TemplateStringError \<rparr> = Inl e"
  then show "parseTemplateString parser rt string context = Rejects {e}"
    by (rule parseTemplateString_thrown)
next
  fix parsed E
  assume a: "parser string \<lparr> getKey = genericResolver rt context,
                                 errorClass = TemplateStringError \<rparr> = Inr parsed \<and>
        Rejects E \<in> set parsed"
  then have "parseTemplateString parser rt string context = Rejects (rejections parsed)"
    using parseTemplateString_rejected by blast
  moreover have "E \<subseteq> rejections parsed"
    using a subset_rejections by blast
  ultimately show "\<exists>E'. parseTemplateString parser rt string context = Rejects E' \<and> E \<subseteq> E' \<and>
            (\<forall>e. e \<in> E' \<longrightarrow> (\<exists>E''. Rejects E'' \<in> set parsed \<and> e \<in> E''))"
    using rejections_mem by blast
next
  fix s E
  assume a: "LString s \<in> set_vtree obj \<and> parseTemplateString parser rt s context = Rejects E"
  then have "resolveLeaf parser rt context (LString s) = Rejects E"
    by (simp add: resolveLeaf_def)
  with a have "Rejects E \<in> set (map (resolveLeaf parser rt context) (leaves obj))"
    by (force simp: set_leaves)
  then obtain E' where first:
    "firstRejected (map (resolveLeaf parser rt context) (leaves obj)) = Some E'"
    using firstRejected_exists by blast
  then have res: "resolveTemplateStrings parser rt obj context = Rejects E'"
    by (simp add: resolveTemplateStrings_Rejects_iff)
  from first have "Rejects E' \<in> set (map (resolveLeaf parser rt context) (leaves obj))"
    by (rule firstRejected_Some_mem)
  then obtain v where v: "v \<in> set_vtree obj" and "resolveLeaf parser rt context v = Rejects E'"
    by (auto simp: set_leaves)
  then obtain s' where "v = LString s'" "parseTemplateString parser rt s' context = Rejects E'"
    using resolveLeaf_Rejects by blast
  with v res show "\<exists>s' E'. LString s' \<in> set_vtree obj \<and>
         parseTemplateString parser rt s' context = Rejects E' \<and>
         resolveTemplateStrings parser rt obj context = Rejects E'"
    by blast
qed

theorem errors_abort_the_call_witness:
  "templateParser exampleGrammar ''${missing.key}''
     \<lparr> getKey = genericResolver plainRuntime Map.empty, errorClass = TemplateStringError \<rparr>
     = Inl (keyNotFound ''missing.key'') \<and>
   parseTemplateString (templateParser exampleGrammar) plainRuntime ''${missing.key}'' Map.empty
     = Rejects {keyNotFound ''missing.key''} \<and>
   templateParser exampleGrammar ''run ${job.id}''
     \<lparr> getKey = genericResolver plainRuntime [''job'' \<mapsto> Resolver (rejectingResolver ''boom'')],
       errorClass = TemplateStringError \<rparr>
     = Inr [Fulfils (Prim (PString ''run '')), Rejects {OtherError ''boom''}] \<and>
   Rejects {OtherError ''boom''}
     \<in> set [Fulfils (Prim (PString ''run '')), Rejects {OtherError ''boom''}] \<and>
   parseTemplateString (templateParser exampleGrammar) plainRuntime ''run ${job.id}''
     [''job'' \<mapsto> Resolver (rejectingResolver ''boom'')] = Rejects {OtherError ''boom''} \<and>
   LString ''${missing.key}''
     \<in> set_vtree (Mapping [(''a'', Leaf (LString ''${missing.key}'')), (''c'', Leaf (LNumber 2))]) \<and>
   resolveTemplateStrings (templateParser exampleGrammar) plainRuntime
     (Mapping [(''a'', Leaf (LString ''${missing.key}'')), (''c'', Leaf (LNumber 2))]) Map.empty
     = Rejects {keyNotFound ''missing.key''}"
proof -
  have thrown: "templateParser exampleGrammar ''${missing.key}''
     \<lparr> getKey = genericResolver plainRuntime Map.empty, errorClass = TemplateStringError \<rparr>
     = Inl (keyNotFound ''missing.key'')"
    by (simp add: templateParser_def exampleGrammar_def plainRuntime_def scanKeyPath.simps
        genericResolver_def lookupPart_def)
  have parsed: "templateParser exampleGrammar ''run ${job.id}''
     \<lparr> getKey = genericResolver plainRuntime [''job'' \<mapsto> Resolver (rejectingResolver ''boom'')],
       errorClass = TemplateStringError \<rparr>
     = Inr [Fulfils (Prim (PString ''run '')), Rejects {OtherError ''boom''}]"
    by (simp add: templateParser_def exampleGrammar_def plainRuntime_def scanKeyPath.simps
        genericResolver_def lookupPart_def rejectingResolver_def)
  have leaf: "LString ''${missing.key}''
     \<in> set_vtree (Mapping [(''a'', Leaf (LString ''${missing.key}'')), (''c'', Leaf (LNumber 2))])"
    by simp
  note thm1 = errors_abort_the_call
      [of "templateParser exampleGrammar" "''${missing.key}''" plainRuntime Map.empty
          "Mapping [(''a'', Leaf (LString ''${missing.key}'')), (''c'', Leaf (LNumber 2))]"]
  note thm2 = errors_abort_the_call
      [of "templateParser exampleGrammar" "''run ${job.id}''" plainRuntime
          "[''job'' \<mapsto> Resolver (rejectingResolver ''boom'')]" "Leaf LNull"]
  have r1: "parseTemplateString (templateParser exampleGrammar) plainRuntime ''${missing.key}''
      Map.empty = Rejects {keyNotFound ''missing.key''}"
    using thm1 thrown by blast
  have r2: "parseTemplateString (templateParser exampleGrammar) plainRuntime ''run ${job.id}''
     [''job'' \<mapsto> Resolver (rejectingResolver ''boom'')] = Rejects {OtherError ''boom''}"
    using thm2 parsed by (simp add: parseTemplateString_def)
  have r3: "resolveTemplateStrings (templateParser exampleGrammar) plainRuntime
     (Mapping [(''a'', Leaf (LString ''${missing.key}'')), (''c'', Leaf (LNumber 2))]) Map.empty
     = Rejects {keyNotFound ''missing.key''}"
    using thm1 leaf r1 by (simp add: resolveTemplateStrings_def resolveLeaf_def)
  from thrown parsed leaf r1 r2 r3 show ?thesis by simp
qed

section \<open>Properties of the context builder\<close>

text \<open>
  C8. \<^verbatim>\<open>getTemplateContext\<close> always returns a context. Every entry of the extra context
  is in it unchanged, \<^verbatim>\<open>env\<close> included, so a nested context of the extra context
  replaces the one of the base and is not merged with it. When the extra context has no
  \<^verbatim>\<open>env\<close>, the entry \<^verbatim>\<open>env\<close> is the whole of \<^verbatim>\<open>process.env\<close>. It has no other entries.
\<close>

theorem getTemplateContext_merge:
  "\<exists>ctx. getTemplateContext process_env extraContext = Fulfils ctx \<and>
     (\<forall>key v. (case extraContext of None \<Rightarrow> Map.empty | Some c \<Rightarrow> c) key = Some v \<longrightarrow>
        ctx key = Some v) \<and>
     ((case extraContext of None \<Rightarrow> Map.empty | Some c \<Rightarrow> c) ''env'' = None \<longrightarrow>
        ctx ''env'' = Some (Nested (envContext process_env))) \<and>
     (\<forall>key. (case extraContext of None \<Rightarrow> Map.empty | Some c \<Rightarrow> c) key = None \<and>
        key \<noteq> ''env'' \<longrightarrow> ctx key = None) \<and>
     (\<forall>name. envContext process_env name
        = map_option (\<lambda>s. Prim (PString s)) (process_env name))"
  by (auto simp: getTemplateContext_def envContext_def map_add_def split: option.splits)

theorem getTemplateContext_merge_witness:
  "(\<exists>ctx. getTemplateContext [''HOME'' \<mapsto> ''/root'']
       (Some [''env'' \<mapsto> Nested [''HOME'' \<mapsto> Prim (PString ''/tmp'')],
              ''name'' \<mapsto> Prim (PString ''world'')]) = Fulfils ctx \<and>
     ctx ''env'' = Some (Nested [''HOME'' \<mapsto> Prim (PString ''/tmp'')]) \<and>
     ctx ''name'' = Some (Prim (PString ''world'')) \<and>
     ctx ''other'' = None) \<and>
   (\<exists>ctx. getTemplateContext [''HOME'' \<mapsto> ''/root'']
       (Some [''name'' \<mapsto> Prim (PString ''world'')]) = Fulfils ctx \<and>
     ctx ''env'' = Some (Nested (envContext [''HOME'' \<mapsto> ''/root''])) \<and>
     envContext [''HOME'' \<mapsto> ''/root''] ''HOME'' = Some (Prim (PString ''/root'')) \<and>
     ctx ''name'' = Some (Prim (PString ''world''))) \<and>
   (\<exists>ctx. getTemplateContext [''HOME'' \<mapsto> ''/root''] None = Fulfils ctx \<and>
     ctx ''env'' = Some (Nested (envContext [''HOME'' \<mapsto> ''/root''])) \<and>
     ctx ''name'' = None)"
  using getTemplateContext_merge
          [of "[''HOME'' \<mapsto> ''/root'']"
              "Some [''env'' \<mapsto> Nested [''HOME'' \<mapsto> Prim (PString ''/tmp'')],
                     ''name'' \<mapsto> Prim (PString ''world'')]"]
        getTemplateContext_merge
          [of "[''HOME'' \<mapsto> ''/root'']" "Some [''name'' \<mapsto> Prim (PString ''world'')]"]
        getTemplateContext_merge [of "[''HOME'' \<mapsto> ''/root'']" None]
  by auto

section \<open>Properties of the parser singleton\<close>

lemma getParser_set: "getParser required generated (Some p) = (Inr p, Some p)"
  by (simp add: getParser_def)

lemma getParser_unset_Inr:
  "getParser required generated None = (Inr p, s) \<Longrightarrow> s = Some p"
  by (auto simp: getParser_def split: sum.splits)

lemma getParser_calls_set:
  "i < length ls \<Longrightarrow> getParser_calls ls (Some p) ! i = (Inr p, Some p)"
proof (induction ls arbitrary: i)
  case Nil
  then show ?case by simp
next
  case (Cons l ls)
  then show ?case by (cases i) (simp_all add: getParser_set)
qed

lemma getParser_calls_same:
  "i < j \<Longrightarrow> j < length ls \<Longrightarrow> fst (getParser_calls ls s ! i) = Inr p \<Longrightarrow>
   getParser_calls ls s ! j = (Inr p, Some p)"
proof (induction ls arbitrary: i j s)
  case Nil
  then show ?case by simp
next
  case (Cons l ls)
  from Cons.prems(1) obtain j' where j: "j = Suc j'" by (cases j) auto
  with Cons.prems(2) have j': "j' < length ls" by simp
  show ?case
  proof (cases i)
    case 0
    with Cons.prems(3) have first: "fst (getParser (fst l) (snd l) s) = Inr p" by simp
    have "snd (getParser (fst l) (snd l) s) = Some p"
    proof (cases s)
      case None
      obtain r s' where rs: "getParser (fst l) (snd l) None = (r, s')"
        by (cases "getParser (fst l) (snd l) None")
      with first None have "r = Inr p" by simp
      with rs have "s' = Some p" by (simp add: getParser_unset_Inr)
      with rs None show ?thesis by simp
    next
      case (Some q)
      with first show ?thesis by (simp add: getParser_set)
    qed
    with j j' show ?thesis by (simp add: getParser_calls_set)
  next
    case (Suc i')
    with Cons.prems j have "i' < j'"
      and "fst (getParser_calls ls (snd (getParser (fst l) (snd l) s)) ! i') = Inr p"
      by simp_all
    with Cons.IH j' j show ?thesis by simp
  qed
qed

lemma constructions_set: "constructions (Some p) (map snd (getParser_calls ls (Some p))) = 0"
  by (induction ls) (simp_all add: getParser_set)

lemma constructions_le:
  "constructions s (map snd (getParser_calls ls s)) \<le> (if s = None then 1 else 0)"
proof (induction ls arbitrary: s)
  case Nil
  then show ?case by simp
next
  case (Cons l ls)
  show ?case
  proof (cases s)
    case (Some p)
    then show ?thesis using constructions_set [of p "l # ls"] by simp
  next
    case None
    show ?thesis
    proof (cases "snd (getParser (fst l) (snd l) None)")
      case inner: None
      with None Cons.IH [of None] show ?thesis by simp
    next
      case inner: (Some p)
      with None constructions_set [of p ls] show ?thesis by simp
    qed
  qed
qed

text \<open>
  C9. In any sequence of calls of \<^verbatim>\<open>getParser\<close> that starts with the variable unset, at
  most one call constructs a parser; once a call has returned a parser, every later call
  returns that same parser and leaves the variable as it is, whatever the loaders would
  do. A call that finds the variable unset runs the construction: the precompiled module,
  or the generated parser when loading the module throws. A call that finds it set
  returns its value.
\<close>

theorem parser_singleton:
  "constructions None (map snd (getParser_calls ls None)) \<le> 1 \<and>
   (\<forall>i j p. i < j \<and> j < length ls \<and> fst (getParser_calls ls None ! i) = Inr p \<longrightarrow>
      getParser_calls ls None ! j = (Inr p, Some p)) \<and>
   fst (getParser required generated None)
     = (case required of Inr p \<Rightarrow> Inr p | Inl err \<Rightarrow> generated) \<and>
   (\<forall>p. getParser required generated (Some p) = (Inr p, Some p))"
proof -
  have once: "constructions None (map snd (getParser_calls ls None)) \<le> 1"
    using constructions_le [of None ls] by simp
  have same: "getParser_calls ls None ! j = (Inr p, Some p)"
    if "i < j \<and> j < length ls \<and> fst (getParser_calls ls None ! i) = Inr p" for i j p
  proof -
    from that have "i < j" "j < length ls" "fst (getParser_calls ls None ! i) = Inr p"
      by simp_all
    then show ?thesis by (rule getParser_calls_same)
  qed
  have first: "fst (getParser required generated None)
     = (case required of Inr p \<Rightarrow> Inr p | Inl err \<Rightarrow> generated)"
    by (cases required; cases generated) (simp_all add: getParser_def)
  have later: "getParser required generated (Some p) = (Inr p, Some p)" for p
    by (rule getParser_set)
  from once same first later show ?thesis by blast
qed

theorem parser_singleton_witness:
  "getParser_calls
     [(Inl (OtherError ''no module''), Inl (OtherError ''no grammar'')),
      (Inl (OtherError ''no module''), Inr (1::nat)),
      (Inr 2, Inr 3)] None
     = [(Inl (OtherError ''no grammar''), None), (Inr 1, Some 1), (Inr 1, Some 1)] \<and>
   (1::nat) < 2 \<and>
   2 < length [(Inl (OtherError ''no module''), Inl (OtherError ''no grammar'')),
               (Inl (OtherError ''no module''), Inr (1::nat)),
               (Inr 2, Inr 3)] \<and>
   fst (getParser_calls
     [(Inl (OtherError ''no module''), Inl (OtherError ''no grammar'')),
      (Inl (OtherError ''no module''), Inr (1::nat)),
      (Inr 2, Inr 3)] None ! 1) = Inr 1 \<and>
   getParser_calls
     [(Inl (OtherError ''no module''), Inl (OtherError ''no grammar'')),
      (Inl (OtherError ''no module''), Inr (1::nat)),
      (Inr 2, Inr 3)] None ! 2 = (Inr 1, Some 1) \<and>
   constructions None
     (map snd (getParser_calls
        [(Inl (OtherError ''no module''), Inl (OtherError ''no grammar'')),
         (Inl (OtherError ''no module''), Inr (1::nat)),
         (Inr 2, Inr 3)] None)) = 1"
proof -
  let ?ls = "[(Inl (OtherError ''no module''), Inl (OtherError ''no grammar'')),
              (Inl (OtherError ''no module''), Inr (1::nat)),
              (Inr 2, Inr 3)]"
  have run: "getParser_calls ?ls None
     = [(Inl (OtherError ''no grammar''), None), (Inr 1, Some 1), (Inr 1, Some 1)]"
    by (simp add: getParser_def)
  have hyp: "(1::nat) < 2 \<and> 2 < length ?ls \<and> fst (getParser_calls ?ls None ! 1) = Inr 1"
    unfolding run by simp
  have same: "getParser_calls ?ls None ! 2 = (Inr 1, Some 1)"
    using parser_singleton [of ?ls "Inr 2" "Inr 3"] hyp by blast
  have once: "constructions None (map snd (getParser_calls ?ls None)) = 1"
    unfolding run by simp
  from run hyp same once show ?thesis by blast
qed

end
